theory Spec2Isabelle
  imports Main "HOL-Library.Log_Nat"
begin

section \<open>Token counter (src/token\_counter.py)\<close>

subsection \<open>The tokenizer backend\<close>

text \<open>
  The module tries to import tiktoken once, when it is loaded. On success it sets
  \<^verbatim>\<open>HAS_TIKTOKEN = True\<close> and binds \<^verbatim>\<open>_encoder\<close> to the encoder; on
  \<^verbatim>\<open>ImportError\<close> it sets \<^verbatim>\<open>HAS_TIKTOKEN = False\<close> and
  \<^verbatim>\<open>_encoder = None\<close>. The two module globals are the fields of a record; the
  encoder is a function from a text to its sequence of token ids.

  A Python \<^verbatim>\<open>str\<close> is a sequence of characters and \<^verbatim>\<open>len\<close> counts them; a
  text is modelled as a \<^typ>\<open>string\<close>, one element per character.
\<close>

record tokenizer =
  HAS_TIKTOKEN :: bool
  encoder :: "(string \<Rightarrow> nat list) option"

definition tiktoken_loaded :: "(string \<Rightarrow> nat list) \<Rightarrow> tokenizer" where
  "tiktoken_loaded enc = \<lparr>HAS_TIKTOKEN = True, encoder = Some enc\<rparr>"

definition tiktoken_missing :: tokenizer where
  "tiktoken_missing = \<lparr>HAS_TIKTOKEN = False, encoder = None\<rparr>"

text \<open>
  \<^verbatim>\<open>if HAS_TIKTOKEN and _encoder\<close>: the accurate backend is used when the flag is set
  and the encoder is not \<^verbatim>\<open>None\<close>; otherwise the character estimator is.
\<close>

definition char_estimator :: "tokenizer \<Rightarrow> bool" where
  "char_estimator tk = (\<not> (HAS_TIKTOKEN tk \<and> encoder tk \<noteq> None))"

subsection \<open>count\_tokens and count\_tokens\_batch\<close>

definition count_tokens :: "tokenizer \<Rightarrow> string \<Rightarrow> int" where
  "count_tokens tk text =
     (if text = [] then 0
      else (case (HAS_TIKTOKEN tk, encoder tk) of
              (True, Some enc) \<Rightarrow> int (length (enc text))
            | _ \<Rightarrow> int (length text) div 4))"

definition count_tokens_batch :: "tokenizer \<Rightarrow> string list \<Rightarrow> int" where
  "count_tokens_batch tk texts = sum_list (map (count_tokens tk) texts)"

subsection \<open>Exceptions\<close>

text \<open>
  An exception object is modelled by its class and by the text \<^verbatim>\<open>str(e)\<close> gives for
  it. Every class below derives from \<^verbatim>\<open>Exception\<close>.
  \<^verbatim>\<open>FileNotFoundError\<close>, \<^verbatim>\<open>PermissionError\<close> and
  \<^verbatim>\<open>IsADirectoryError\<close> derive from \<^verbatim>\<open>OSError\<close>, of which
  \<^verbatim>\<open>IOError\<close> is another name; \<^verbatim>\<open>UnicodeDecodeError\<close> and
  \<^verbatim>\<open>UnicodeEncodeError\<close> derive from \<^verbatim>\<open>ValueError\<close>.
\<close>

datatype exception_class =
  ZeroDivisionError | OverflowError | KeyError | RuntimeError
  | OSError | FileNotFoundError | PermissionError | IsADirectoryError
  | ValueError | UnicodeDecodeError | UnicodeEncodeError

datatype py_exception = Raised exception_class string

fun str_of_exception :: "py_exception \<Rightarrow> string" where
  "str_of_exception (Raised c message) = message"

subsection \<open>Python floats\<close>

text \<open>
  \<^verbatim>\<open>calculate_savings\<close> computes \<^verbatim>\<open>percent_saved\<close> in binary floating
  point. A finite double is a rational number, so a float is modelled by its exact value,
  and every operation rounds the exact result to the nearest double, ties to the even
  significand (53 bits, least exponent \<open>-1074\<close>, overflow at \<open>2 ^ 1024\<close>).
\<close>

datatype py_float = Finite rat | PosInf | NegInf | NaN

definition round_half_even :: "rat \<Rightarrow> int" where
  "round_half_even x =
     (let f = \<lfloor>x\<rfloor>; r = x - of_int f
      in if r < 1 / 2 then f
         else if 1 / 2 < r then f + 1
         else if even f then f else f + 1)"

text \<open>For \<open>0 < q\<close>, the integer \<open>d\<close> with \<open>2 powi d \<le> q < 2 powi (d + 1)\<close>.\<close>

definition floor_log2 :: "rat \<Rightarrow> int" where
  "floor_log2 q =
     (let (a, b) = quotient_of q; d = bitlen a - bitlen b
      in if 2 powi d \<le> q then d else d - 1)"

definition float_exponent :: "rat \<Rightarrow> int" where
  "float_exponent a = max (floor_log2 a - 52) (- 1074)"

definition round_to_float :: "rat \<Rightarrow> py_float" where
  "round_to_float q =
     (if q = 0 then Finite 0
      else let a = \<bar>q\<bar>;
               e = float_exponent a;
               r = of_int (round_half_even (a / 2 powi e)) * 2 powi e
           in if 2 ^ 1024 \<le> r then (if 0 < q then PosInf else NegInf)
              else Finite (if 0 < q then r else - r))"

text \<open>
  \<^verbatim>\<open>a / b\<close> on two ints: the correctly rounded quotient;
  \<^verbatim>\<open>ZeroDivisionError\<close> when \<open>b = 0\<close>, \<^verbatim>\<open>OverflowError\<close> when the
  quotient is too large for a float.
\<close>

definition py_truediv :: "int \<Rightarrow> int \<Rightarrow> py_exception + py_float" where
  "py_truediv a b =
     (if b = 0 then Inl (Raised ZeroDivisionError ''division by zero'')
      else (case round_to_float (of_int a / of_int b) of
              Finite r \<Rightarrow> Inr (Finite r)
            | _ \<Rightarrow> Inl (Raised OverflowError
                         ''integer division result too large for a float'')))"

fun float_mul :: "py_float \<Rightarrow> py_float \<Rightarrow> py_float" where
  "float_mul (Finite a) (Finite b) = round_to_float (a * b)"
| "float_mul NaN _ = NaN"
| "float_mul _ NaN = NaN"
| "float_mul (Finite a) PosInf = (if a = 0 then NaN else if 0 < a then PosInf else NegInf)"
| "float_mul (Finite a) NegInf = (if a = 0 then NaN else if 0 < a then NegInf else PosInf)"
| "float_mul PosInf (Finite b) = (if b = 0 then NaN else if 0 < b then PosInf else NegInf)"
| "float_mul NegInf (Finite b) = (if b = 0 then NaN else if 0 < b then NegInf else PosInf)"
| "float_mul PosInf PosInf = PosInf"
| "float_mul NegInf NegInf = PosInf"
| "float_mul PosInf NegInf = NegInf"
| "float_mul NegInf PosInf = NegInf"

text \<open>
  \<^verbatim>\<open>round(x, ndigits)\<close> for a float and a small \<open>ndigits \<ge> 0\<close>: the exact value
  of \<open>x\<close> is rounded to \<open>ndigits\<close> decimals, ties to even, and the decimal is
  converted back to the nearest double. An infinity or NaN is returned as it is.
\<close>

fun py_round :: "py_float \<Rightarrow> nat \<Rightarrow> py_float" where
  "py_round (Finite x) ndigits =
     round_to_float (of_int (round_half_even (x * 10 ^ ndigits)) / 10 ^ ndigits)"
| "py_round x ndigits = x"

subsection \<open>calculate\_savings\<close>

record token_stats =
  tokens_used :: int
  tokens_without_search :: int
  tokens_saved :: int
  percent_saved :: py_float

definition calculate_savings :: "int \<Rightarrow> int \<Rightarrow> py_exception + token_stats" where
  "calculate_savings search_result_tokens full_file_tokens =
     (let tokens_saved = max 0 (full_file_tokens - search_result_tokens)
      in if 0 < full_file_tokens then
           (case py_truediv tokens_saved full_file_tokens of
              Inl e \<Rightarrow> Inl e
            | Inr ratio \<Rightarrow>
                Inr \<lparr>tokens_used = search_result_tokens,
                     tokens_without_search = full_file_tokens,
                     tokens_saved = tokens_saved,
                     percent_saved = py_round (float_mul ratio (Finite 100)) 1\<rparr>)
         else
           Inr \<lparr>tokens_used = search_result_tokens,
                tokens_without_search = full_file_tokens,
                tokens_saved = tokens_saved,
                percent_saved = Finite 0\<rparr>)"

subsection \<open>estimate\_file\_tokens\<close>

text \<open>
  \<^verbatim>\<open>open(file_path, 'r', encoding='utf-8')\<close> followed by \<^verbatim>\<open>f.read()\<close> either
  yields the decoded contents or raises. The file system is a parameter: for each path,
  the contents or the exception raised (by the operating system, by the decoder of the
  contents, or by the encoder of the path, \<^verbatim>\<open>UnicodeEncodeError\<close>). Two failures do
  not depend on it: a path containing the NUL character is refused by \<^verbatim>\<open>open\<close>
  with \<^verbatim>\<open>ValueError\<close> before the file system is asked, and there is no file of the
  empty name.
\<close>

type_synonym file_system = "string \<Rightarrow> py_exception + string"

definition open_read :: "file_system \<Rightarrow> string \<Rightarrow> py_exception + string" where
  "open_read fs file_path =
     (if CHR 0x00 \<in> set file_path then Inl (Raised ValueError ''embedded null byte'')
      else if file_path = [] then
        Inl (Raised FileNotFoundError
               (''[Errno 2] No such file or directory: '' @ [CHR 0x27, CHR 0x27]))
      else fs file_path)"

text \<open>
  \<^verbatim>\<open>except (IOError, OSError, UnicodeDecodeError)\<close>: the classes the handler
  catches, with their subclasses.
\<close>

fun caught_read_error :: "exception_class \<Rightarrow> bool" where
  "caught_read_error OSError = True"
| "caught_read_error FileNotFoundError = True"
| "caught_read_error PermissionError = True"
| "caught_read_error IsADirectoryError = True"
| "caught_read_error UnicodeDecodeError = True"
| "caught_read_error _ = False"

definition estimate_file_tokens ::
  "tokenizer \<Rightarrow> file_system \<Rightarrow> string \<Rightarrow> py_exception + int" where
  "estimate_file_tokens tk fs file_path =
     (case open_read fs file_path of
        Inr content \<Rightarrow> Inr (count_tokens tk content)
      | Inl (Raised c message) \<Rightarrow>
          if caught_read_error c then Inr 0 else Inl (Raised c message))"

section \<open>Searcher (src/searcher.py)\<close>

subsection \<open>Results and collaborators\<close>

text \<open>
  A search result is a dict; \<^verbatim>\<open>search_code_with_stats\<close> reads it with
  \<^verbatim>\<open>r.get("code", "")\<close> and \<^verbatim>\<open>r.get("file_path")\<close>, so either key may be
  absent (\<open>None\<close>).
\<close>

record search_result =
  function_name :: string
  file_path :: "string option"
  line_start :: int
  line_end :: int
  summary :: string
  code :: "string option"
  similarity :: rat

text \<open>
  The embedder, the vector database and the operating system are outside the repository.
  Each call takes the state of the world \<open>'w\<close> and returns the new one, with either a
  value or the exception it raised (every one of them an instance of
  \<^verbatim>\<open>Exception\<close>). \<open>'v\<close> is the type of an embedding; \<open>files\<close> is the file
  system as the world has it.
\<close>

record ('v, 'w) collaborators =
  init_db :: "string \<Rightarrow> 'w \<Rightarrow> (py_exception + unit) \<times> 'w"
  embed_query :: "string \<Rightarrow> 'w \<Rightarrow> (py_exception + 'v) \<times> 'w"
  db_search :: "'v \<Rightarrow> int \<Rightarrow> 'w \<Rightarrow> (py_exception + search_result list) \<times> 'w"
  get_stats :: "'w \<Rightarrow> (py_exception + (string \<rightharpoonup> int)) \<times> 'w"
  path_exists :: "string \<Rightarrow> 'w \<Rightarrow> bool"
  files :: "'w \<Rightarrow> file_system"
  print_line :: "string \<Rightarrow> 'w \<Rightarrow> 'w"

subsection \<open>search\_code\<close>

definition search_code ::
  "('v, 'w) collaborators \<Rightarrow> string \<Rightarrow> string \<Rightarrow> int \<Rightarrow> 'w \<Rightarrow> search_result list \<times> 'w" where
  "search_code env query persist_path top_k w =
     (case init_db env persist_path w of
        (Inl e, w1) \<Rightarrow> ([], print_line env (''Search error: '' @ str_of_exception e) w1)
      | (Inr _, w1) \<Rightarrow>
          (case embed_query env query w1 of
             (Inl e, w2) \<Rightarrow> ([], print_line env (''Search error: '' @ str_of_exception e) w2)
           | (Inr query_embedding, w2) \<Rightarrow>
               (case db_search env query_embedding top_k w2 of
                  (Inl e, w3) \<Rightarrow>
                    ([], print_line env (''Search error: '' @ str_of_exception e) w3)
                | (Inr results, w3) \<Rightarrow> (results, w3))))"

subsection \<open>search\_code\_with\_stats\<close>

fun str_join :: "string \<Rightarrow> string list \<Rightarrow> string" where
  "str_join sep [] = []"
| "str_join sep [x] = x"
| "str_join sep (x # y # ys) = x @ sep @ str_join sep (y # ys)"

definition zero_stats :: token_stats where
  "zero_stats =
     \<lparr>tokens_used = 0, tokens_without_search = 0, tokens_saved = 0, percent_saved = Finite 0\<rparr>"

text \<open>
  \<^verbatim>\<open>"\n".join(r.get("code", "") for r in results)\<close>.
\<close>

definition result_code :: "search_result list \<Rightarrow> string" where
  "result_code results =
     str_join [CHR 0x0A] (map (\<lambda>r. case code r of None \<Rightarrow> [] | Some c \<Rightarrow> c) results)"

text \<open>
  \<^verbatim>\<open>list(set(r.get("file_path", "") for r in results if r.get("file_path")))\<close>: the
  paths that are present and not empty, each once. The order in which a Python set is
  listed is not specified; only the sum over the list and its length are used.
\<close>

definition result_file_paths :: "search_result list \<Rightarrow> string list" where
  "result_file_paths results =
     remdups (map (\<lambda>r. case file_path r of None \<Rightarrow> [] | Some p \<Rightarrow> p)
                (filter (\<lambda>r. case file_path r of None \<Rightarrow> False | Some p \<Rightarrow> p \<noteq> [])
                   results))"

text \<open>
  \<^verbatim>\<open>sum(estimate_file_tokens(fp) for fp in file_paths)\<close>: the files are read in the
  order of the list, and the first read that raises ends the sum with its exception.
\<close>

fun sum_file_tokens :: "tokenizer \<Rightarrow> file_system \<Rightarrow> string list \<Rightarrow> py_exception + int" where
  "sum_file_tokens tk fs [] = Inr 0"
| "sum_file_tokens tk fs (fp # fps) =
     (case estimate_file_tokens tk fs fp of
        Inl e \<Rightarrow> Inl e
      | Inr n \<Rightarrow>
          (case sum_file_tokens tk fs fps of
             Inl e \<Rightarrow> Inl e
           | Inr rest \<Rightarrow> Inr (n + rest)))"

text \<open>
  Only \<^verbatim>\<open>search_code\<close> is inside a handler: an exception of a file read or of
  \<^verbatim>\<open>calculate_savings\<close> leaves \<^verbatim>\<open>search_code_with_stats\<close>.
\<close>

definition search_code_with_stats ::
  "tokenizer \<Rightarrow> ('v, 'w) collaborators \<Rightarrow> string \<Rightarrow> string \<Rightarrow> int \<Rightarrow> 'w
     \<Rightarrow> (py_exception + search_result list \<times> token_stats) \<times> 'w" where
  "search_code_with_stats tk env query persist_path top_k w =
     (case search_code env query persist_path top_k w of
        (results, w1) \<Rightarrow>
          if results = [] then (Inr (results, zero_stats), w1)
          else
            let tokens_used = count_tokens tk (result_code results);
                file_paths = result_file_paths results
            in (case sum_file_tokens tk (files env w1) file_paths of
                  Inl e \<Rightarrow> (Inl e, w1)
                | Inr file_tokens \<Rightarrow>
                    let tokens_without_search =
                          (if file_tokens = 0
                           then 500 * max 3 (int (length file_paths))
                           else file_tokens)
                    in (case calculate_savings tokens_used tokens_without_search of
                          Inl e \<Rightarrow> (Inl e, w1)
                        | Inr token_stats \<Rightarrow> (Inr (results, token_stats), w1))))"

subsection \<open>is\_indexed\<close>

text \<open>
  Everything is inside \<^verbatim>\<open>try ... except Exception: return False\<close>. The statistics
  are a dict; \<^verbatim>\<open>stats["total_functions"]\<close> raises \<^verbatim>\<open>KeyError\<close> when the
  key is absent, which the handler turns into \<open>False\<close> as well.
\<close>

definition is_indexed :: "('v, 'w) collaborators \<Rightarrow> string \<Rightarrow> 'w \<Rightarrow> bool \<times> 'w" where
  "is_indexed env persist_path w =
     (if \<not> path_exists env persist_path w then (False, w)
      else
        (case init_db env persist_path w of
           (Inl e, w1) \<Rightarrow> (False, w1)
         | (Inr _, w1) \<Rightarrow>
             (case get_stats env w1 of
                (Inl e, w2) \<Rightarrow> (False, w2)
              | (Inr stats, w2) \<Rightarrow>
                  (case stats ''total_functions'' of
                     None \<Rightarrow> (False, w2)
                   | Some n \<Rightarrow> (0 < n, w2)))))"

section \<open>The file paths of a result sequence\<close>

text \<open>
  The set of distinct file paths appearing in the results, in the words of the
  specification: every value a result has under the key \<^verbatim>\<open>file_path\<close>. It is compared
  below with \<open>result_file_paths\<close>, the list the code builds.
\<close>

definition distinct_file_paths :: "search_result list \<Rightarrow> string set" where
  "distinct_file_paths results =
     set (concat (map (\<lambda>r. case file_path r of None \<Rightarrow> [] | Some p \<Rightarrow> [p]) results))"

section \<open>Example collaborators\<close>

text \<open>
  A small world for evaluating the definitions: the state is the log of collaborator calls
  and printed lines; one file is readable, one is not text, every other path is missing.
\<close>

definition demo_result :: "string \<Rightarrow> string \<Rightarrow> search_result" where
  "demo_result p c =
     \<lparr>function_name = ''f'', file_path = Some p, line_start = 1, line_end = 2,
      summary = ''s'', code = Some c, similarity = 1 / 2\<rparr>"

definition demo_files :: file_system where
  "demo_files p =
     (if p = ''a.py'' then Inr ''def check_reverse(s): return s == s[::-1]''
      else if p = ''b.bin'' then
        Inl (Raised UnicodeDecodeError ''invalid start byte'')
      else Inl (Raised FileNotFoundError ''[Errno 2] No such file or directory''))"

definition demo_env :: "search_result list \<Rightarrow> (unit, string list) collaborators" where
  "demo_env rs =
     \<lparr>init_db = (\<lambda>p w. (Inr (), w @ [''init_db''])),
      embed_query = (\<lambda>q w. (Inr (), w @ [''embed_query''])),
      db_search = (\<lambda>v k w. (Inr (take (nat k) rs), w @ [''db_search''])),
      get_stats = (\<lambda>w. (Inr [''total_functions'' \<mapsto> int (length rs)], w @ [''get_stats''])),
      path_exists = (\<lambda>p w. p = ''./.washedmcp/chroma''),
      files = (\<lambda>w. demo_files),
      print_line = (\<lambda>s w. w @ [s])\<rparr>"

definition failing_embedder :: "(unit, string list) collaborators" where
  "failing_embedder =
     (demo_env [])\<lparr>embed_query := (\<lambda>q w. (Inl (Raised RuntimeError ''embedder unreachable''), w))\<rparr>"

definition unreadable_results :: "search_result list" where
  "unreadable_results =
     [demo_result [] [], demo_result ''x.py'' [], demo_result ''y.py'' [],
      demo_result ''z.py'' []]"

definition shared_file_results :: "search_result list" where
  "shared_file_results =
     [demo_result ''a.py'' ''abcd'', demo_result ''a.py'' ''efgh'',
      demo_result ''missing.py'' ''ijkl'']"

definition short_snippet_results :: "search_result list" where
  "short_snippet_results = [demo_result ''missing.py'' ''x=1'']"

section \<open>Properties of the token counter\<close>

lemma count_tokens_estimator:
  "char_estimator tk \<Longrightarrow> count_tokens tk text = int (length text) div 4"
  by (cases "HAS_TIKTOKEN tk"; cases "encoder tk")
     (simp_all add: count_tokens_def char_estimator_def)

lemma count_tokens_nonneg: "0 \<le> count_tokens tk text"
  by (cases "HAS_TIKTOKEN tk"; cases "encoder tk")
     (simp_all add: count_tokens_def pos_imp_zdiv_nonneg_iff)

text \<open>
  Claim C7. For every text and either backend, \<open>count_tokens\<close> is a non-negative
  integer; it is 0 on the empty text; and when the accurate tokenizer is unavailable
  (the character estimator is in use) it is the number of characters divided by 4,
  rounded down.
\<close>

theorem count_tokens_spec:
  "0 \<le> count_tokens tk text
   \<and> count_tokens tk [] = 0
   \<and> (char_estimator tk \<longrightarrow> count_tokens tk text = int (length text) div 4)"
  using count_tokens_nonneg [of tk "text"] count_tokens_estimator [of tk "text"]
  by (simp add: count_tokens_def)

theorem count_tokens_spec_witness:
  "char_estimator tiktoken_missing
   \<and> 0 \<le> count_tokens tiktoken_missing ''def f(): pass''
   \<and> count_tokens tiktoken_missing [] = 0
   \<and> count_tokens tiktoken_missing ''def f(): pass'' = 3"
  using count_tokens_spec [of tiktoken_missing "''def f(): pass''"]
  by (simp add: char_estimator_def tiktoken_missing_def)

lemma sum_list_div4_le:
  "(\<Sum>t\<leftarrow>texts. int (length t) div 4) \<le> int (length (concat texts)) div 4"
proof (induction texts)
  case Nil
  then show ?case by simp
next
  case (Cons t texts)
  have "int (length t) div 4 + int (length (concat texts)) div 4
          \<le> (int (length t) + int (length (concat texts))) div 4"
    by presburger
  with Cons show ?case by simp
qed

lemma length_concat_le:
  "int (length (concat texts)) \<le> 4 * (\<Sum>t\<leftarrow>texts. int (length t) div 4) + 3 * int (length texts)"
proof (induction texts)
  case Nil
  then show ?case by simp
next
  case (Cons t texts)
  have "int (length t) \<le> 4 * (int (length t) div 4) + 3" by presburger
  with Cons show ?case by simp
qed

lemma sum_list_div4_eq:
  "\<forall>t\<in>set texts. 4 dvd length t \<Longrightarrow>
     (\<Sum>t\<leftarrow>texts. int (length t) div 4) = int (length (concat texts)) div 4"
proof (induction texts)
  case Nil
  then show ?case by simp
next
  case (Cons t texts)
  then have "4 dvd int (length t)" by (simp add: int_dvd_int_iff [symmetric] del: int_dvd_int_iff)
  then have "(int (length t) + int (length (concat texts))) div 4
          = int (length t) div 4 + int (length (concat texts)) div 4"
    by (simp add: div_plus_div_distrib_dvd_left)
  with Cons show ?case by simp
qed

lemma count_tokens_batch_estimator:
  assumes "char_estimator tk"
  shows "count_tokens_batch tk texts = (\<Sum>t\<leftarrow>texts. int (length t) div 4)"
  by (induction texts) (simp_all add: count_tokens_batch_def count_tokens_estimator [OF assms])

text \<open>
  Claim C6. \<open>count_tokens_batch\<close> is the sum of \<open>count_tokens\<close> over the list. As
  stated, the claim adds that under the character estimator this sum equals
  \<open>count_tokens\<close> of the concatenation; that fails, because each element is rounded down
  on its own: \<^verbatim>\<open>["ab", "cd"]\<close> gives \<open>0 + 0\<close>, the concatenation
  \<^verbatim>\<open>"abcd"\<close> gives 1.
\<close>

theorem count_tokens_batch_concat_counterexample:
  "\<not> (char_estimator tiktoken_missing \<longrightarrow>
        count_tokens_batch tiktoken_missing [''ab'', ''cd'']
          = count_tokens tiktoken_missing (concat [''ab'', ''cd'']))"
  by (simp add: char_estimator_def tiktoken_missing_def count_tokens_batch_def count_tokens_def)

text \<open>
  Claim C6, amended. \<open>count_tokens_batch\<close> is the sum of \<open>count_tokens\<close> over the
  list; under the character estimator the sum is at most \<open>count_tokens\<close> of the
  concatenation, falls short of it by at most \<open>3 * n div 4\<close> for \<open>n\<close> strings, and
  equals it when the length of every string is a multiple of 4.
\<close>

theorem count_tokens_batch_spec:
  "count_tokens_batch tk texts = (\<Sum>t\<leftarrow>texts. count_tokens tk t)
   \<and> (char_estimator tk \<longrightarrow>
        count_tokens_batch tk texts \<le> count_tokens tk (concat texts)
      \<and> count_tokens tk (concat texts) \<le> count_tokens_batch tk texts + (3 * int (length texts)) div 4
      \<and> ((\<forall>t\<in>set texts. 4 dvd length t) \<longrightarrow>
            count_tokens_batch tk texts = count_tokens tk (concat texts)))"
proof -
  have 1: "count_tokens_batch tk texts = (\<Sum>t\<leftarrow>texts. count_tokens tk t)"
    by (simp add: count_tokens_batch_def)
  have 2: "count_tokens_batch tk texts \<le> count_tokens tk (concat texts)" if "char_estimator tk"
    using that sum_list_div4_le [of texts]
    by (simp add: count_tokens_batch_estimator count_tokens_estimator)
  have 3: "count_tokens tk (concat texts)
             \<le> count_tokens_batch tk texts + (3 * int (length texts)) div 4" if "char_estimator tk"
  proof -
    have "int (length (concat texts)) div 4
            \<le> (4 * count_tokens_batch tk texts + 3 * int (length texts)) div 4"
      using that length_concat_le [of texts]
      by (intro zdiv_mono1) (simp_all add: count_tokens_batch_estimator)
    also have "\<dots> = count_tokens_batch tk texts + (3 * int (length texts)) div 4"
      by simp
    finally show ?thesis using that by (simp add: count_tokens_estimator)
  qed
  have 4: "count_tokens_batch tk texts = count_tokens tk (concat texts)"
    if "char_estimator tk" "\<forall>t\<in>set texts. 4 dvd length t"
    using that sum_list_div4_eq [of texts]
    by (simp add: count_tokens_batch_estimator count_tokens_estimator)
  show ?thesis using 1 2 3 4 by blast
qed

theorem count_tokens_batch_spec_witness:
  "char_estimator tiktoken_missing
   \<and> count_tokens_batch tiktoken_missing [''ab'', ''cd''] = 0
   \<and> count_tokens tiktoken_missing (concat [''ab'', ''cd'']) = 1
   \<and> 4 dvd length ''abcd'' \<and> 4 dvd length ''efgh''
   \<and> count_tokens_batch tiktoken_missing [''abcd'', ''efgh''] = 2
   \<and> count_tokens tiktoken_missing (concat [''abcd'', ''efgh'']) = 2"
proof -
  have est: "char_estimator tiktoken_missing"
    by (simp add: char_estimator_def tiktoken_missing_def)
  have dvd: "\<forall>t\<in>set [''abcd'', ''efgh'']. 4 dvd length t"
    by code_simp
  have b1: "count_tokens_batch tiktoken_missing [''ab'', ''cd''] = 0"
    by (simp add: tiktoken_missing_def count_tokens_batch_def count_tokens_def)
  have b2: "count_tokens_batch tiktoken_missing [''abcd'', ''efgh''] = 2"
    by (simp add: tiktoken_missing_def count_tokens_batch_def count_tokens_def)
  have "count_tokens tiktoken_missing (concat [''ab'', ''cd'']) \<le> 0 + (3 * int (length [''ab'', ''cd''])) div 4"
    and "0 \<le> count_tokens tiktoken_missing (concat [''ab'', ''cd''])"
    using count_tokens_batch_spec [of tiktoken_missing "[''ab'', ''cd'']"] est b1 by auto
  moreover have "count_tokens tiktoken_missing (concat [''ab'', ''cd'']) = 1"
    by (simp add: tiktoken_missing_def count_tokens_def)
  moreover have "count_tokens tiktoken_missing (concat [''abcd'', ''efgh'']) = 2"
    using count_tokens_batch_spec [of tiktoken_missing "[''abcd'', ''efgh'']"] est dvd b2
    by auto
  moreover have "4 dvd length ''abcd''" and "4 dvd length ''efgh''"
    using dvd by simp_all
  ultimately show ?thesis using est b1 b2 by blast
qed

lemma estimate_file_tokens_readable:
  assumes "open_read fs path = Inr content"
  shows "estimate_file_tokens tk fs path = Inr (count_tokens tk content)"
  using assms by (simp add: estimate_file_tokens_def)

lemma estimate_file_tokens_caught:
  assumes "open_read fs path = Inl (Raised c message)" and "caught_read_error c"
  shows "estimate_file_tokens tk fs path = Inr 0"
  using assms by (simp add: estimate_file_tokens_def)

lemma estimate_file_tokens_uncaught:
  assumes "open_read fs path = Inl (Raised c message)" and "\<not> caught_read_error c"
  shows "estimate_file_tokens tk fs path = Inl (Raised c message)"
  using assms by (simp add: estimate_file_tokens_def)

lemma estimate_file_tokens_empty_path: "estimate_file_tokens tk fs [] = Inr 0"
  by (simp add: estimate_file_tokens_def open_read_def)

lemma estimate_file_tokens_nonneg:
  assumes "estimate_file_tokens tk fs path = Inr n"
  shows "0 \<le> n"
proof (cases "open_read fs path")
  case (Inr content)
  then show ?thesis
    using assms count_tokens_nonneg [of tk content] by (simp add: estimate_file_tokens_def)
next
  case (Inl e)
  then show ?thesis
    using assms by (cases e) (simp add: estimate_file_tokens_def split: if_splits)
qed

text \<open>
  Claim C8. The claim is that \<open>estimate_file_tokens\<close> returns 0 and does not raise for
  every path whose file is missing, unreadable or not decodable. The handler catches
  \<^verbatim>\<open>OSError\<close> and \<^verbatim>\<open>UnicodeDecodeError\<close> only: for the path
  \<^verbatim>\<open>"a\x00b"\<close>, which names no file, \<^verbatim>\<open>open\<close> raises
  \<^verbatim>\<open>ValueError\<close>, which is not caught and leaves the function, whatever the file
  system holds. A missing file of an ordinary name gives 0.
\<close>

theorem estimate_file_tokens_nul_path:
  "estimate_file_tokens tk fs [CHR ''a'', CHR 0x00, CHR ''b'']
     = Inl (Raised ValueError ''embedded null byte'')
   \<and> estimate_file_tokens tk demo_files ''missing.py'' = Inr 0"
  by (simp add: estimate_file_tokens_def open_read_def demo_files_def)

section \<open>Properties of float rounding\<close>

lemma round_half_even_le: "x \<le> of_int n \<Longrightarrow> round_half_even x \<le> n"
  unfolding round_half_even_def Let_def
  by (auto simp: floor_le_iff le_floor_iff)

lemma round_half_even_ge:
  assumes "of_int n \<le> x" shows "n \<le> round_half_even x"
proof -
  have "n \<le> \<lfloor>x\<rfloor>" using assms by (simp add: le_floor_iff)
  then show ?thesis unfolding round_half_even_def Let_def by auto
qed

lemma bitlen_powi:
  assumes "0 < a"
  shows "(2::rat) powi (bitlen a - 1) \<le> of_int a" and "(of_int a :: rat) < 2 powi bitlen a"
proof -
  have l: "1 \<le> bitlen a" using assms by (auto simp: bitlen_alt_def)
  have "(2::int) ^ nat (bitlen a - 1) \<le> a" "a < 2 ^ nat (bitlen a)"
    using bitlen_bounds [OF assms] by auto
  then have "(of_int ((2::int) ^ nat (bitlen a - 1)) :: rat) \<le> of_int a"
    and "(of_int a :: rat) < of_int (2 ^ nat (bitlen a))"
    by (simp_all only: of_int_le_iff of_int_less_iff)
  then show "(2::rat) powi (bitlen a - 1) \<le> of_int a" and "(of_int a :: rat) < 2 powi bitlen a"
    using l by (simp_all add: power_int_def)
qed

lemma floor_log2_le:
  assumes "0 < q"
  shows "2 powi floor_log2 q \<le> q"
proof -
  obtain a b where ab: "quotient_of q = (a, b)" by (cases "quotient_of q")
  have b: "0 < b" using ab quotient_of_denom_pos by blast
  have q: "q = of_int a / of_int b" using ab quotient_of_div by blast
  have a: "0 < a" using assms b q by (simp add: zero_less_divide_iff)
  let ?d = "bitlen a - bitlen b"
  have "(2::rat) powi (?d - 1) = 2 powi (bitlen a - 1) / 2 powi bitlen b"
    by (simp add: power_int_diff [symmetric] algebra_simps)
  also have "\<dots> \<le> of_int a / of_int b"
    using bitlen_powi [OF a] bitlen_powi [OF b] a b
    by (intro frac_le) (auto intro: less_imp_le)
  finally have "2 powi (?d - 1) \<le> q" using q by simp
  then show ?thesis
    using ab by (simp add: floor_log2_def Let_def)
qed

lemma float_exponent_nonpos:
  assumes "0 < q" "q < 2 ^ 53"
  shows "float_exponent q \<le> 0"
proof -
  have "(2::rat) powi floor_log2 q < 2 powi 53"
    using floor_log2_le [OF assms(1)] assms(2) by simp
  then have "floor_log2 q < 53"
    by (rule power_int_le_imp_less_exp [rotated]) simp_all
  then show ?thesis by (simp add: float_exponent_def)
qed

text \<open>Rounding to a double never crosses an integer below \<open>2 ^ 53\<close>.\<close>

lemma round_to_float_le_int:
  assumes "0 \<le> q" "q \<le> of_int n" "n < 2 ^ 53"
  shows "\<exists>r. round_to_float q = Finite r \<and> 0 \<le> r \<and> r \<le> of_int n"
proof (cases "q = 0")
  case True
  then show ?thesis using assms by (simp add: round_to_float_def)
next
  case False
  then have q: "0 < q" using assms by simp
  have "q < 2 ^ 53"
  proof -
    have "(of_int n :: rat) < of_int (2 ^ 53)" using assms(3) by (simp only: of_int_less_iff)
    then show ?thesis using assms(2) by simp
  qed
  then have e: "float_exponent q \<le> 0" using float_exponent_nonpos q by blast
  define e where "e = float_exponent q"
  define k where "k = nat (- e)"
  have pe: "(2::rat) powi e = 1 / 2 ^ k"
    using e unfolding e_def k_def by (simp add: power_int_def divide_simps)
  have "q / 2 powi e \<le> of_int (n * 2 ^ k)"
    using assms(2) by (simp add: pe mult_right_mono)
  then have up: "round_half_even (q / 2 powi e) \<le> n * 2 ^ k"
    by (rule round_half_even_le)
  have "of_int 0 \<le> q / 2 powi e" using q by (simp add: pe)
  then have lo: "0 \<le> round_half_even (q / 2 powi e)"
    by (rule round_half_even_ge)
  define r where "r = (of_int (round_half_even (q / 2 powi e)) :: rat) * 2 powi e"
  have r0: "0 \<le> r" using lo by (simp add: r_def pe)
  have "(of_int (round_half_even (q / 2 powi e)) :: rat) \<le> of_int (n * 2 ^ k)"
    using up by (simp only: of_int_le_iff)
  then have rn: "r \<le> of_int n"
    by (simp add: r_def pe divide_simps)
  have "(of_int n :: rat) < 2 ^ 1024"
  proof -
    have "n < 2 ^ 1024" using assms(3) by (rule less_trans) simp
    then have "(of_int n :: rat) < of_int (2 ^ 1024)" by (simp only: of_int_less_iff)
    then show ?thesis by simp
  qed
  then have "\<not> 2 ^ 1024 \<le> r" using rn by simp
  then have "round_to_float q = Finite r"
    using q by (simp add: round_to_float_def Let_def r_def e_def)
  then show ?thesis using r0 rn by blast
qed

lemma round_half_even_error: "\<bar>of_int (round_half_even x) - x\<bar> \<le> 1 / 2"
proof -
  define f where "f = \<lfloor>x\<rfloor>"
  have lo: "of_int f \<le> x" and hi: "x < of_int f + 1"
    unfolding f_def by linarith+
  consider "x - of_int f < 1 / 2" | "1 / 2 < x - of_int f" | "x - of_int f = 1 / 2"
    by linarith
  then show ?thesis
  proof cases
    case 1
    then have "round_half_even x = f" by (simp add: round_half_even_def f_def)
    then show ?thesis using 1 lo by (simp add: abs_if)
  next
    case 2
    then have "round_half_even x = f + 1" by (simp add: round_half_even_def f_def)
    then show ?thesis using 2 hi by (simp add: abs_if)
  next
    case 3
    then have "round_half_even x = f \<or> round_half_even x = f + 1"
      by (simp add: round_half_even_def f_def Let_def)
    then show ?thesis using 3 by (auto simp: abs_if)
  qed
qed

lemma round_to_float_error_pos:
  assumes "0 < q" "q < 2 powi (m + 1)" "- 1022 \<le> m" "round_to_float q = Finite r"
  shows "\<bar>r - q\<bar> \<le> 2 powi (m - 53)"
proof -
  define e where "e = float_exponent q"
  have lt: "(2::rat) powi floor_log2 q < 2 powi (m + 1)"
    using floor_log2_le [OF assms(1)] assms(2) by simp
  have "floor_log2 q < m + 1"
  proof (rule ccontr)
    assume "\<not> floor_log2 q < m + 1"
    then have "m + 1 \<le> floor_log2 q" by simp
    then have "(2::rat) powi (m + 1) \<le> 2 powi floor_log2 q"
      by (intro power_int_increasing) simp_all
    with lt show False by simp
  qed
  then have e: "e \<le> m - 52" using assms(3) by (simp add: e_def float_exponent_def)
  let ?x = "q / 2 powi e"
  have r: "r = of_int (round_half_even ?x) * 2 powi e"
    using assms(1,4) by (auto simp: round_to_float_def Let_def e_def split: if_splits)
  have pos: "(0::rat) < 2 powi e" by (simp add: zero_less_power_int)
  have "r - q = (of_int (round_half_even ?x) - ?x) * 2 powi e"
    using pos by (simp add: r algebra_simps)
  then have "\<bar>r - q\<bar> = \<bar>of_int (round_half_even ?x) - ?x\<bar> * 2 powi e"
    using pos by (simp add: abs_mult)
  also have "\<dots> \<le> 1 / 2 * 2 powi e"
    using round_half_even_error [of ?x] pos by (intro mult_right_mono) simp_all
  also have "\<dots> = 2 powi (e - 1)"
    by (simp add: power_int_diff)
  also have "\<dots> \<le> 2 powi (m - 53)"
    using e by (intro power_int_increasing) simp_all
  finally show ?thesis .
qed

lemma round_to_float_error:
  assumes "0 \<le> q" "q < 2 powi (m + 1)" "- 1022 \<le> m" "round_to_float q = Finite r"
  shows "\<bar>r - q\<bar> \<le> 2 powi (m - 53)"
proof (cases "q = 0")
  case True
  then have "r = 0" using assms(4) by (simp add: round_to_float_def)
  then show ?thesis using True by simp
next
  case False
  then show ?thesis using assms round_to_float_error_pos [of q m r] by simp
qed

lemma py_truediv_unit:
  assumes "0 \<le> a" "a \<le> b" "0 < b"
  shows "\<exists>r. py_truediv a b = Inr (Finite r) \<and> 0 \<le> r \<and> r \<le> 1
           \<and> \<bar>r - of_int a / of_int b\<bar> \<le> 2 powi (- 53)"
proof -
  let ?q = "of_int a / of_int b :: rat"
  have q0: "0 \<le> ?q" using assms by simp
  have q1: "?q \<le> of_int 1" using assms by simp
  obtain r where r: "round_to_float ?q = Finite r" "0 \<le> r" "r \<le> of_int 1"
    using round_to_float_le_int [OF q0 q1] by auto
  have "?q < 2 powi (0 + 1)" using q1 by simp
  then have err: "\<bar>r - ?q\<bar> \<le> 2 powi (0 - 53)"
    using q0 r(1) by (intro round_to_float_error) simp_all
  have "py_truediv a b = Inr (Finite r)"
    using assms(3) r(1) by (simp add: py_truediv_def)
  then show ?thesis using r err by auto
qed

lemma float_mul_100:
  assumes "0 \<le> r" "r \<le> 1"
  shows "\<exists>y. float_mul (Finite r) (Finite 100) = Finite y \<and> 0 \<le> y \<and> y \<le> 100
           \<and> \<bar>y - r * 100\<bar> \<le> 2 powi (- 47)"
proof -
  let ?q = "r * 100"
  have q0: "0 \<le> ?q" using assms by simp
  have q1: "?q \<le> of_int 100" using assms by simp
  obtain y where y: "round_to_float ?q = Finite y" "0 \<le> y" "y \<le> of_int 100"
    using round_to_float_le_int [OF q0 q1] by auto
  have "?q < 2 powi (6 + 1)" using q1 by simp
  then have err: "\<bar>y - ?q\<bar> \<le> 2 powi (6 - 53)"
    using q0 y(1) by (intro round_to_float_error) simp_all
  show ?thesis using y err by auto
qed

lemma py_round_1:
  assumes "0 \<le> x" "x \<le> 100"
  shows "\<exists>k p. py_round (Finite x) 1 = Finite p \<and> round_to_float (of_int k / 10) = Finite p
           \<and> 0 \<le> k \<and> k \<le> 1000 \<and> 0 \<le> p \<and> p \<le> 100
           \<and> \<bar>of_int k / 10 - x\<bar> \<le> 1 / 20 \<and> \<bar>p - of_int k / 10\<bar> \<le> 2 powi (- 47)"
proof -
  define k where "k = round_half_even (x * 10)"
  let ?q = "of_int k / 10 :: rat"
  have "of_int 0 \<le> x * 10" and "x * 10 \<le> of_int 1000" using assms by simp_all
  then have k: "0 \<le> k" "k \<le> 1000"
    unfolding k_def by (simp_all only: round_half_even_ge round_half_even_le)
  have "\<bar>of_int k - x * 10\<bar> \<le> 1 / 2"
    unfolding k_def by (rule round_half_even_error)
  moreover have "?q - x = (of_int k - x * 10) / 10" by simp
  ultimately have kx: "\<bar>?q - x\<bar> \<le> 1 / 20" by (simp only: abs_divide)
  have q0: "0 \<le> ?q" using k by simp
  have q1: "?q \<le> of_int 100" using k by simp
  obtain p where p: "round_to_float ?q = Finite p" "0 \<le> p" "p \<le> of_int 100"
    using round_to_float_le_int [OF q0 q1] by auto
  have "?q < 2 powi (6 + 1)" using q1 by simp
  then have err: "\<bar>p - ?q\<bar> \<le> 2 powi (6 - 53)"
    using q0 p(1) by (intro round_to_float_error) simp_all
  have "py_round (Finite x) 1 = Finite p"
    using p(1) by (simp add: k_def)
  then show ?thesis using p k kx err by auto
qed


section \<open>Properties of calculate\_savings\<close>

lemma calculate_savings_nonneg_args:
  assumes "0 \<le> used" "0 \<le> without"
  shows "\<exists>p. calculate_savings used without =
               Inr \<lparr>tokens_used = used, tokens_without_search = without,
                    tokens_saved = max 0 (without - used), percent_saved = Finite p\<rparr>
           \<and> 0 \<le> p \<and> p \<le> 100
           \<and> (if 0 < without
              then (\<exists>ratio. py_truediv (max 0 (without - used)) without = Inr ratio
                      \<and> py_round (float_mul ratio (Finite 100)) 1 = Finite p)
                 \<and> (\<exists>k. 0 \<le> k \<and> k \<le> 1000 \<and> round_to_float (of_int k / 10) = Finite p)
                 \<and> \<bar>p - of_int (max 0 (without - used)) / of_int without * 100\<bar>
                     \<le> 1 / 20 + 2 powi (- 45)
              else p = 0)"
proof (cases "0 < without")
  case False
  then show ?thesis by (simp add: calculate_savings_def)
next
  case True
  define s where "s = max 0 (without - used)"
  have s: "0 \<le> s" "s \<le> without" using assms by (simp_all add: s_def)
  obtain r where r: "py_truediv s without = Inr (Finite r)" "0 \<le> r" "r \<le> 1"
    "\<bar>r - of_int s / of_int without\<bar> \<le> 2 powi (- 53)"
    using py_truediv_unit [OF s True] by auto
  obtain y where y: "float_mul (Finite r) (Finite 100) = Finite y" "0 \<le> y" "y \<le> 100"
    "\<bar>y - r * 100\<bar> \<le> 2 powi (- 47)"
    using float_mul_100 [OF r(2,3)] by auto
  obtain k p where p: "py_round (Finite y) 1 = Finite p"
    "round_to_float (of_int k / 10) = Finite p" "0 \<le> k" "k \<le> 1000" "0 \<le> p" "p \<le> 100"
    "\<bar>of_int k / 10 - y\<bar> \<le> 1 / 20" "\<bar>p - of_int k / 10\<bar> \<le> 2 powi (- 47)"
    using py_round_1 [OF y(2,3)] by auto
  define E where "E = (of_int s / of_int without :: rat)"
  define K where "K = (of_int k / 10 :: rat)"
  define u where "u = (2::rat) powi (- 47)"
  have "r * 100 - E * 100 = (r - E) * 100"
    by (simp add: algebra_simps)
  then have "\<bar>r * 100 - E * 100\<bar> = \<bar>r - E\<bar> * 100"
    by (simp only: abs_mult)
  moreover have "\<bar>r - E\<bar> \<le> 2 powi (- 53)" using r(4) by (simp add: E_def)
  ultimately have d: "\<bar>r * 100 - E * 100\<bar> \<le> 2 powi (- 53) * 100"
    by simp
  have "2 powi (- 53) * 100 \<le> 2 * u" by (simp add: u_def power_int_def power_divide)
  then have d': "\<bar>r * 100 - E * 100\<bar> \<le> 2 * u" using d by simp
  have a: "\<bar>p - K\<bar> \<le> u" using p(8) by (simp add: K_def u_def)
  have b: "\<bar>K - y\<bar> \<le> 1 / 20" using p(7) by (simp add: K_def)
  have c: "\<bar>y - r * 100\<bar> \<le> u" using y(4) by (simp add: u_def)
  have "\<bar>p - E * 100\<bar> \<le> 1 / 20 + 4 * u"
    using a b c d' by linarith
  also have "4 * u = 2 powi (- 45)" by (simp add: u_def power_int_def power_divide)
  finally have acc: "\<bar>p - of_int s / of_int without * 100\<bar> \<le> 1 / 20 + 2 powi (- 45)"
    by (simp add: E_def)
  have "calculate_savings used without =
          Inr \<lparr>tokens_used = used, tokens_without_search = without,
               tokens_saved = s, percent_saved = Finite p\<rparr>"
    using True r(1) y(1) p(1) by (simp add: calculate_savings_def s_def [symmetric] Let_def)
  then show ?thesis
    using True r(1) y(1) p acc unfolding s_def [symmetric] by auto
qed

lemma calculate_savings_fields:
  assumes "0 \<le> u" "0 \<le> t"
  shows "\<exists>stats. calculate_savings u t = Inr stats \<and> tokens_used stats = u
           \<and> tokens_without_search stats = t \<and> tokens_saved stats = max 0 (t - u)"
  using calculate_savings_nonneg_args [OF assms] by auto

text \<open>
  Claim C2. For all integers \<open>used \<ge> 0\<close> and \<open>without \<ge> 0\<close>,
  \<open>calculate_savings\<close> returns (it does not raise) a record with
  \<open>tokens_used = used\<close>, \<open>tokens_without_search = without\<close>,
  \<open>tokens_saved = max 0 (without - used)\<close> and a finite \<open>percent_saved\<close> in
  \<open>[0, 100]\<close>. When \<open>without > 0\<close>, \<open>percent_saved\<close> is the float
  \<^verbatim>\<open>round((tokens_saved / without) * 100, 1)\<close>: it is the double nearest to a decimal
  \<open>k / 10\<close> with one digit after the point, and it lies within half a unit of that
  digit (plus the rounding error of the float operations, below \<open>2 powi (- 45)\<close>) of
  the exact percentage. When \<open>without \<le> 0\<close> it is \<open>0.0\<close>.
\<close>

theorem calculate_savings_spec:
  assumes "0 \<le> used" "0 \<le> without"
  shows "\<exists>p. calculate_savings used without =
               Inr \<lparr>tokens_used = used, tokens_without_search = without,
                    tokens_saved = max 0 (without - used), percent_saved = Finite p\<rparr>
           \<and> 0 \<le> p \<and> p \<le> 100
           \<and> (if 0 < without
              then (\<exists>ratio. py_truediv (max 0 (without - used)) without = Inr ratio
                      \<and> py_round (float_mul ratio (Finite 100)) 1 = Finite p)
                 \<and> (\<exists>k. 0 \<le> k \<and> k \<le> 1000 \<and> round_to_float (of_int k / 10) = Finite p)
                 \<and> \<bar>p - of_int (max 0 (without - used)) / of_int without * 100\<bar>
                     \<le> 1 / 20 + 2 powi (- 45)
              else p = 0)"
  using assms by (rule calculate_savings_nonneg_args)

theorem calculate_savings_spec_witness:
  "(0::int) \<le> 150 \<and> (0::int) \<le> 2000
   \<and> (\<exists>p. calculate_savings 150 2000 =
              Inr \<lparr>tokens_used = 150, tokens_without_search = 2000,
                   tokens_saved = 1850, percent_saved = Finite p\<rparr>
          \<and> 0 \<le> p \<and> p \<le> 100
          \<and> \<bar>p - 185 / 2\<bar> \<le> 1 / 20 + 2 powi (- 45))"
  using calculate_savings_spec [of 150 2000] by auto

text \<open>The example of the module's self-test: 150 tokens used against 2000 gives 92.5 percent.\<close>

lemma calculate_savings_example:
  "calculate_savings 150 2000 =
     Inr \<lparr>tokens_used = 150, tokens_without_search = 2000, tokens_saved = 1850,
          percent_saved = Finite (185 / 2)\<rparr>"
  by code_simp

subsection \<open>Integers are exact\<close>

lemma round_to_float_ge_int:
  assumes "0 < n" "of_int n \<le> q" "q < 2 ^ 53" "round_to_float q = Finite r"
  shows "of_int n \<le> r"
proof -
  have q: "0 < q" using assms(1,2) by (meson less_le_trans of_int_0_less_iff)
  then have e: "float_exponent q \<le> 0" using float_exponent_nonpos assms(3) by blast
  define e where "e = float_exponent q"
  define k where "k = nat (- e)"
  have pe: "(2::rat) powi e = 1 / 2 ^ k"
    using e unfolding e_def k_def by (simp add: power_int_def divide_simps)
  have "of_int (n * 2 ^ k) \<le> q / 2 powi e"
    using assms(2) by (simp add: pe mult_right_mono)
  then have "n * 2 ^ k \<le> round_half_even (q / 2 powi e)"
    by (rule round_half_even_ge)
  then have "(of_int (n * 2 ^ k) :: rat) \<le> of_int (round_half_even (q / 2 powi e))"
    by (simp only: of_int_le_iff)
  then have "of_int n * 2 ^ k \<le> (of_int (round_half_even (q / 2 powi e)) :: rat)"
    by simp
  then have "of_int n \<le> (of_int (round_half_even (q / 2 powi e)) :: rat) / 2 ^ k"
    by (simp add: pos_le_divide_eq)
  moreover have "r = of_int (round_half_even (q / 2 powi e)) * 2 powi e"
    using q assms(4) by (auto simp: round_to_float_def Let_def e_def split: if_splits)
  ultimately show ?thesis by (simp add: pe)
qed

text \<open>An integer below \<open>2 ^ 53\<close> is a double.\<close>

lemma round_to_float_of_int:
  assumes "0 \<le> n" "n < 2 ^ 53"
  shows "round_to_float (of_int n) = Finite (of_int n)"
proof (cases "n = 0")
  case True
  then show ?thesis by (simp add: round_to_float_def)
next
  case False
  then have n: "0 < n" using assms(1) by simp
  obtain r where r: "round_to_float (of_int n) = Finite r" "r \<le> of_int n"
    using round_to_float_le_int [of "of_int n" n] assms by auto
  have "(of_int n :: rat) < of_int (2 ^ 53)" using assms(2) by (simp only: of_int_less_iff)
  then have "(of_int n :: rat) < 2 ^ 53" by simp
  then have "of_int n \<le> r"
    using round_to_float_ge_int [OF n _ _ r(1)] by simp
  then show ?thesis using r by simp
qed

lemma round_half_even_of_int: "round_half_even (of_int n) = n"
  by (simp add: round_half_even_def)

lemma calculate_savings_all_saved:
  assumes "0 < t" "t < 2 ^ 53"
  shows "calculate_savings 0 t =
           Inr \<lparr>tokens_used = 0, tokens_without_search = t, tokens_saved = t,
                percent_saved = Finite 100\<rparr>"
proof -
  have one: "round_to_float 1 = Finite 1"
    using round_to_float_of_int [of 1] by simp
  have hundred: "round_to_float 100 = Finite 100"
    using round_to_float_of_int [of 100] by simp
  have "round_half_even (100 * 10) = 1000"
    using round_half_even_of_int [of 1000] by simp
  then have "py_round (Finite 100) 1 = Finite 100"
    using hundred by simp
  moreover have "py_truediv t t = Inr (Finite 1)"
    using assms(1) one by (simp add: py_truediv_def)
  ultimately show ?thesis
    using assms(1) hundred by (simp add: calculate_savings_def)
qed

section \<open>Properties of the searcher\<close>

lemma in_distinct_file_paths:
  "p \<in> distinct_file_paths results \<longleftrightarrow> (\<exists>r\<in>set results. file_path r = Some p)"
  by (force simp: distinct_file_paths_def split: option.splits)

lemma in_result_file_paths:
  "p \<in> set (result_file_paths results)
     \<longleftrightarrow> p \<noteq> [] \<and> (\<exists>r\<in>set results. file_path r = Some p)"
  by (force simp: result_file_paths_def image_iff split: option.splits)

lemma set_result_file_paths:
  "set (result_file_paths results) = distinct_file_paths results - {[]}"
  by (auto simp: in_distinct_file_paths in_result_file_paths)

lemma distinct_result_file_paths: "distinct (result_file_paths results)"
  by (simp add: result_file_paths_def)

lemma finite_distinct_file_paths: "finite (distinct_file_paths results)"
  unfolding distinct_file_paths_def by (rule finite_set)

lemma length_result_file_paths:
  "length (result_file_paths results) = card (distinct_file_paths results - {[]})"
  using distinct_card [OF distinct_result_file_paths, of results]
  by (simp add: set_result_file_paths)

lemma sum_file_tokens_Inr:
  assumes "\<forall>p\<in>set fps. estimate_file_tokens tk fs p = Inr (n p)"
  shows "sum_file_tokens tk fs fps = Inr (sum_list (map n fps))"
  using assms by (induction fps) simp_all

lemma sum_result_file_paths:
  assumes "\<forall>p\<in>distinct_file_paths results. estimate_file_tokens tk fs p = Inr (n p)"
  shows "sum_file_tokens tk fs (result_file_paths results)
           = Inr (\<Sum>p\<in>distinct_file_paths results. n p)"
proof -
  have "\<forall>p\<in>set (result_file_paths results). estimate_file_tokens tk fs p = Inr (n p)"
    using assms by (simp add: set_result_file_paths)
  then have "sum_file_tokens tk fs (result_file_paths results)
               = Inr (sum_list (map n (result_file_paths results)))"
    by (rule sum_file_tokens_Inr)
  also have "sum_list (map n (result_file_paths results))
               = (\<Sum>p\<in>distinct_file_paths results - {[]}. n p)"
    using sum_list_distinct_conv_sum_set [OF distinct_result_file_paths, of n results]
    by (simp add: set_result_file_paths)
  also have "\<dots> = (\<Sum>p\<in>distinct_file_paths results. n p)"
  proof (rule sum.mono_neutral_left)
    show "\<forall>i\<in>distinct_file_paths results - (distinct_file_paths results - {[]}). n i = 0"
      using assms estimate_file_tokens_empty_path [of tk fs] by auto
  qed (auto simp: finite_distinct_file_paths)
  finally show ?thesis .
qed

lemma search_code_with_stats_nonempty:
  assumes "search_code env q p k w = (results, w1)" and "results \<noteq> []"
    and "\<forall>p\<in>distinct_file_paths results.
           estimate_file_tokens tk (files env w1) p = Inr (n p)"
  shows "\<exists>stats. search_code_with_stats tk env q p k w = (Inr (results, stats), w1)
           \<and> tokens_used stats = count_tokens tk (result_code results)
           \<and> tokens_without_search stats =
               (let total = (\<Sum>p\<in>distinct_file_paths results. n p)
                in if total = 0
                   then 500 * max 3 (int (card (distinct_file_paths results - {[]})))
                   else total)"
proof -
  define total where "total = (\<Sum>p\<in>distinct_file_paths results. n p)"
  define tws where
    "tws = (if total = 0 then 500 * max 3 (int (length (result_file_paths results))) else total)"
  have sum: "sum_file_tokens tk (files env w1) (result_file_paths results) = Inr total"
    unfolding total_def using assms(3) by (rule sum_result_file_paths)
  have "0 \<le> n p" if "p \<in> distinct_file_paths results" for p
    using that assms(3) estimate_file_tokens_nonneg by blast
  then have "0 \<le> total"
    unfolding total_def by (simp add: sum_nonneg)
  then have "0 \<le> tws" by (simp add: tws_def)
  then obtain stats where stats:
    "calculate_savings (count_tokens tk (result_code results)) tws = Inr stats"
    "tokens_used stats = count_tokens tk (result_code results)"
    "tokens_without_search stats = tws"
    using calculate_savings_fields [OF count_tokens_nonneg] by blast
  have "search_code_with_stats tk env q p k w =
          (case calculate_savings (count_tokens tk (result_code results)) tws of
             Inl e \<Rightarrow> (Inl e, w1)
           | Inr token_stats \<Rightarrow> (Inr (results, token_stats), w1))"
    unfolding search_code_with_stats_def assms(1) tws_def Let_def
    using assms(2) by (simp add: sum)
  then have "search_code_with_stats tk env q p k w = (Inr (results, stats), w1)"
    using stats(1) by simp
  then show ?thesis
    using stats(2,3) by (auto simp: tws_def total_def Let_def length_result_file_paths)
qed

lemma demo_search:
  "search_code (demo_env rs) q p 5 [] = (take 5 rs, [''init_db'', ''embed_query'', ''db_search''])"
  by (simp add: search_code_def demo_env_def)

text \<open>
  Claim C1. \<open>search_code\<close> has no error result: for every query, path and
  \<open>top_k\<close> it returns a result sequence. When initialising the index, embedding the
  query or the nearest-neighbour search raises, the sequence is empty (and a diagnostic
  line is printed); when all three succeed, it is the sequence the index returned.
\<close>

theorem search_code_never_raises:
  "(\<forall>e w1. init_db env p w = (Inl e, w1) \<longrightarrow> fst (search_code env q p k w) = [])
   \<and> (\<forall>w1 e w2. init_db env p w = (Inr (), w1) \<and> embed_query env q w1 = (Inl e, w2)
         \<longrightarrow> fst (search_code env q p k w) = [])
   \<and> (\<forall>w1 v w2 e w3. init_db env p w = (Inr (), w1) \<and> embed_query env q w1 = (Inr v, w2)
           \<and> db_search env v k w2 = (Inl e, w3)
         \<longrightarrow> fst (search_code env q p k w) = [])
   \<and> (\<forall>w1 v w2 rs w3. init_db env p w = (Inr (), w1) \<and> embed_query env q w1 = (Inr v, w2)
           \<and> db_search env v k w2 = (Inr rs, w3)
         \<longrightarrow> search_code env q p k w = (rs, w3))
   \<and> (\<exists>rs w'. search_code env q p k w = (rs, w'))"
  by (auto simp: search_code_def split: prod.splits sum.splits)

theorem search_code_never_raises_witness:
  "init_db failing_embedder ''./.washedmcp/chroma'' [] = (Inr (), [''init_db''])
   \<and> embed_query failing_embedder ''palindrome'' [''init_db'']
       = (Inl (Raised RuntimeError ''embedder unreachable''), [''init_db''])
   \<and> search_code failing_embedder ''palindrome'' ''./.washedmcp/chroma'' 5 []
       = ([], [''init_db'', ''Search error: embedder unreachable''])"
  using search_code_never_raises
    [of failing_embedder "''./.washedmcp/chroma''" "[]" "''palindrome''" 5]
  by (simp add: failing_embedder_def demo_env_def search_code_def)

text \<open>
  Claim C5. When nothing exists at \<open>persist_path\<close>, \<open>is_indexed\<close> returns
  \<open>False\<close> and leaves the world as it was: no collaborator is called, the index is not
  initialised. When the path exists it initialises the index and asks for the statistics,
  and it returns \<open>True\<close> exactly when they report a total greater than 0. An error
  raised by the initialisation or by the statistics gives \<open>False\<close>; the function has
  no error result.
\<close>

theorem is_indexed_spec:
  "(\<not> path_exists env p w \<longrightarrow> is_indexed env p w = (False, w))
   \<and> (path_exists env p w \<longrightarrow>
        (\<forall>e w1. init_db env p w = (Inl e, w1) \<longrightarrow> is_indexed env p w = (False, w1))
      \<and> (\<forall>w1 e w2. init_db env p w = (Inr (), w1) \<and> get_stats env w1 = (Inl e, w2)
            \<longrightarrow> is_indexed env p w = (False, w2))
      \<and> (\<forall>w1 stats w2. init_db env p w = (Inr (), w1) \<and> get_stats env w1 = (Inr stats, w2)
            \<longrightarrow> is_indexed env p w
                  = ((\<exists>n. stats ''total_functions'' = Some n \<and> 0 < n), w2)))"
  by (auto simp: is_indexed_def split: prod.splits sum.splits option.splits)

theorem is_indexed_spec_witness:
  "\<not> path_exists (demo_env []) ''/nowhere'' []
   \<and> is_indexed (demo_env []) ''/nowhere'' [] = (False, [])
   \<and> path_exists (demo_env []) ''./.washedmcp/chroma'' []
   \<and> is_indexed (demo_env []) ''./.washedmcp/chroma'' [] = (False, [''init_db'', ''get_stats''])
   \<and> is_indexed (demo_env [demo_result ''a.py'' ''x'']) ''./.washedmcp/chroma'' []
       = (True, [''init_db'', ''get_stats''])"
  using is_indexed_spec [of "demo_env []" "''/nowhere''" "[]"]
    is_indexed_spec [of "demo_env []" "''./.washedmcp/chroma''" "[]"]
    is_indexed_spec [of "demo_env [demo_result ''a.py'' ''x'']" "''./.washedmcp/chroma''" "[]"]
  by (simp add: demo_env_def is_indexed_def)

text \<open>
  Claim C9. Whenever the underlying search yields no result (also when it failed),
  \<open>search_code_with_stats\<close> returns the empty sequence with the all-zero statistics.
\<close>

theorem search_code_with_stats_empty:
  assumes "fst (search_code env q p k w) = []"
  shows "search_code_with_stats tk env q p k w =
           (Inr ([], \<lparr>tokens_used = 0, tokens_without_search = 0, tokens_saved = 0,
                        percent_saved = Finite 0\<rparr>),
            snd (search_code env q p k w))"
proof -
  obtain rs w1 where s: "search_code env q p k w = (rs, w1)"
    by (cases "search_code env q p k w")
  then have "rs = []" using assms by simp
  then show ?thesis using s by (simp add: search_code_with_stats_def zero_stats_def)
qed

theorem search_code_with_stats_empty_witness:
  "fst (search_code failing_embedder ''palindrome'' ''./.washedmcp/chroma'' 5 []) = []
   \<and> search_code_with_stats tiktoken_missing failing_embedder ''palindrome''
        ''./.washedmcp/chroma'' 5 [] =
       (Inr ([], \<lparr>tokens_used = 0, tokens_without_search = 0, tokens_saved = 0,
                    percent_saved = Finite 0\<rparr>),
        [''init_db'', ''Search error: embedder unreachable''])"
proof -
  have s: "search_code failing_embedder ''palindrome'' ''./.washedmcp/chroma'' 5 []
             = ([], [''init_db'', ''Search error: embedder unreachable''])"
    by (simp add: failing_embedder_def demo_env_def search_code_def)
  then have e: "fst (search_code failing_embedder ''palindrome'' ''./.washedmcp/chroma'' 5 []) = []"
    by simp
  show ?thesis
    using search_code_with_stats_empty [OF e, of tiktoken_missing] s by simp
qed

text \<open>
  Claim C3. As stated, \<open>tokens_without_search\<close> is the sum of
  \<open>estimate_file_tokens\<close> over the distinct file paths of the results. That fails when
  the sum is 0: for one result in the missing file \<^verbatim>\<open>missing.py\<close> the sum is 0 and
  the statistics report \<open>1500\<close>.
\<close>

theorem tokens_without_search_counterexample:
  "search_code_with_stats tiktoken_missing (demo_env short_snippet_results) ''palindrome''
       ''./.washedmcp/chroma'' 5 []
     = (Inr (short_snippet_results,
             \<lparr>tokens_used = 0, tokens_without_search = 1500, tokens_saved = 1500,
              percent_saved = Finite 100\<rparr>),
        [''init_db'', ''embed_query'', ''db_search''])
   \<and> short_snippet_results \<noteq> []
   \<and> distinct_file_paths short_snippet_results = {''missing.py''}
   \<and> estimate_file_tokens tiktoken_missing demo_files ''missing.py'' = Inr 0
   \<and> (1500::int) \<noteq> 0"
proof -
  have s: "search_code (demo_env short_snippet_results) ''palindrome'' ''./.washedmcp/chroma'' 5 []
             = (short_snippet_results, [''init_db'', ''embed_query'', ''db_search''])"
    by (simp add: demo_search short_snippet_results_def)
  have p: "distinct_file_paths short_snippet_results = {''missing.py''}"
    by (auto simp: distinct_file_paths_def short_snippet_results_def demo_result_def)
  have fp: "result_file_paths short_snippet_results = [''missing.py'']"
    by (simp add: result_file_paths_def short_snippet_results_def demo_result_def)
  have z: "estimate_file_tokens tiktoken_missing demo_files ''missing.py'' = Inr 0"
    by (simp add: estimate_file_tokens_def open_read_def demo_files_def)
  have u: "count_tokens tiktoken_missing (result_code short_snippet_results) = 0"
    by (simp add: result_code_def short_snippet_results_def demo_result_def count_tokens_def
          tiktoken_missing_def)
  have cs: "calculate_savings 0 1500 =
              Inr \<lparr>tokens_used = 0, tokens_without_search = 1500, tokens_saved = 1500,
                   percent_saved = Finite 100\<rparr>"
    by (rule calculate_savings_all_saved) simp_all
  have n: "short_snippet_results \<noteq> []" by (simp add: short_snippet_results_def)
  have "search_code_with_stats tiktoken_missing (demo_env short_snippet_results) ''palindrome''
          ''./.washedmcp/chroma'' 5 []
        = (Inr (short_snippet_results,
                \<lparr>tokens_used = 0, tokens_without_search = 1500, tokens_saved = 1500,
                 percent_saved = Finite 100\<rparr>),
           [''init_db'', ''embed_query'', ''db_search''])"
    unfolding search_code_with_stats_def s
    using n by (simp add: u fp z cs demo_env_def)
  then show ?thesis using p z n by simp
qed

text \<open>
  Claim C3, amended. For a non-empty result sequence whose files each are read or fail
  with an error the handler catches, \<open>search_code_with_stats\<close> returns statistics whose
  \<open>tokens_used\<close> is \<open>count_tokens\<close> of the snippets' code joined with a newline in
  result order, and whose \<open>tokens_without_search\<close> is the sum of
  \<open>estimate_file_tokens\<close> over the set of distinct file paths of the results, each path
  counted once however many results share it, when that sum is not 0; a sum of 0 is
  replaced by \<open>500 * max 3 m\<close>, with \<open>m\<close> the number of distinct non-empty paths.
  Here \<open>n p\<close> is what \<open>estimate_file_tokens\<close> returns for the path \<open>p\<close>.
\<close>

theorem search_code_with_stats_tokens:
  assumes "search_code env q p k w = (results, w1)" and "results \<noteq> []"
    and "\<forall>p\<in>distinct_file_paths results.
           estimate_file_tokens tk (files env w1) p = Inr (n p)"
  shows "\<exists>stats. search_code_with_stats tk env q p k w = (Inr (results, stats), w1)
           \<and> tokens_used stats =
               count_tokens tk
                 (str_join [CHR 0x0A] (map (\<lambda>r. case code r of None \<Rightarrow> [] | Some c \<Rightarrow> c) results))
           \<and> tokens_without_search stats =
               (let total = (\<Sum>p\<in>distinct_file_paths results. n p)
                in if total = 0
                   then 500 * max 3 (int (card (distinct_file_paths results - {[]})))
                   else total)"
  using search_code_with_stats_nonempty [OF assms] by (simp add: result_code_def)

theorem search_code_with_stats_tokens_witness:
  "search_code (demo_env shared_file_results) ''palindrome'' ''./.washedmcp/chroma'' 5 []
     = (shared_file_results, [''init_db'', ''embed_query'', ''db_search''])
   \<and> shared_file_results \<noteq> []
   \<and> distinct_file_paths shared_file_results = {''a.py'', ''missing.py''}
   \<and> estimate_file_tokens tiktoken_missing demo_files ''a.py'' = Inr 10
   \<and> estimate_file_tokens tiktoken_missing demo_files ''missing.py'' = Inr 0
   \<and> (\<exists>stats. search_code_with_stats tiktoken_missing (demo_env shared_file_results)
                 ''palindrome'' ''./.washedmcp/chroma'' 5 []
               = (Inr (shared_file_results, stats), [''init_db'', ''embed_query'', ''db_search''])
          \<and> tokens_used stats = 3 \<and> tokens_without_search stats = 10)"
proof -
  define n :: "string \<Rightarrow> int" where "n = (\<lambda>p. if p = ''a.py'' then 10 else 0)"
  have s: "search_code (demo_env shared_file_results) ''palindrome'' ''./.washedmcp/chroma'' 5 []
             = (shared_file_results, [''init_db'', ''embed_query'', ''db_search''])"
    by (simp add: demo_search shared_file_results_def)
  have ne: "shared_file_results \<noteq> []" by (simp add: shared_file_results_def)
  have p: "distinct_file_paths shared_file_results = {''a.py'', ''missing.py''}"
    by (auto simp: distinct_file_paths_def shared_file_results_def demo_result_def)
  have f: "files (demo_env shared_file_results) w = demo_files" for w
    by (simp add: demo_env_def)
  have a: "estimate_file_tokens tiktoken_missing demo_files ''a.py'' = Inr 10"
    by (simp add: estimate_file_tokens_def open_read_def demo_files_def count_tokens_def
          tiktoken_missing_def)
  have m: "estimate_file_tokens tiktoken_missing demo_files ''missing.py'' = Inr 0"
    by (simp add: estimate_file_tokens_def open_read_def demo_files_def)
  have r: "\<forall>p\<in>distinct_file_paths shared_file_results.
             estimate_file_tokens tiktoken_missing
               (files (demo_env shared_file_results) [''init_db'', ''embed_query'', ''db_search'']) p
             = Inr (n p)"
    unfolding p f by (simp add: a m n_def)
  have u: "count_tokens tiktoken_missing
             (str_join [CHR 0x0A]
               (map (\<lambda>r. case code r of None \<Rightarrow> [] | Some c \<Rightarrow> c) shared_file_results)) = 3"
    by (simp add: shared_file_results_def demo_result_def count_tokens_def tiktoken_missing_def)
  have t: "(\<Sum>p\<in>{''a.py'', ''missing.py''}. n p) = 10"
    by (simp add: n_def)
  show ?thesis
    using search_code_with_stats_tokens [OF s ne r] s ne p a m
    by (simp add: u t)
qed

text \<open>
  Claim C4. As stated, the heuristic is \<open>500 * max 3 n\<close> with \<open>n\<close> the number of
  distinct file paths of the results. The code counts only the paths that are not empty:
  with the four paths \<^verbatim>\<open>""\<close>, \<^verbatim>\<open>"x.py"\<close>, \<^verbatim>\<open>"y.py"\<close>,
  \<^verbatim>\<open>"z.py"\<close>, none of them readable, it reports \<open>1500\<close>, not \<open>2000\<close>.
\<close>

theorem heuristic_count_counterexample:
  "search_code_with_stats tiktoken_missing (demo_env unreadable_results) ''palindrome''
       ''./.washedmcp/chroma'' 5 []
     = (Inr (unreadable_results,
             \<lparr>tokens_used = 0, tokens_without_search = 1500, tokens_saved = 1500,
              percent_saved = Finite 100\<rparr>),
        [''init_db'', ''embed_query'', ''db_search''])
   \<and> map (estimate_file_tokens tiktoken_missing demo_files) [[], ''x.py'', ''y.py'', ''z.py'']
       = [Inr 0, Inr 0, Inr 0, Inr 0]
   \<and> distinct_file_paths unreadable_results = {[], ''x.py'', ''y.py'', ''z.py''}
   \<and> card (distinct_file_paths unreadable_results) = 4
   \<and> (1500::int) \<noteq> 500 * max 3 (int (card (distinct_file_paths unreadable_results)))"
proof -
  have s: "search_code (demo_env unreadable_results) ''palindrome'' ''./.washedmcp/chroma'' 5 []
             = (unreadable_results, [''init_db'', ''embed_query'', ''db_search''])"
    by (simp add: demo_search unreadable_results_def)
  have p: "distinct_file_paths unreadable_results = {[], ''x.py'', ''y.py'', ''z.py''}"
    by (auto simp: distinct_file_paths_def unreadable_results_def demo_result_def)
  have c: "card (distinct_file_paths unreadable_results) = 4"
    unfolding p by simp
  have fp: "result_file_paths unreadable_results = [''x.py'', ''y.py'', ''z.py'']"
    by (simp add: result_file_paths_def unreadable_results_def demo_result_def)
  have z: "estimate_file_tokens tiktoken_missing demo_files x = Inr 0"
    if "x \<in> {[], ''x.py'', ''y.py'', ''z.py''}" for x
    using that by (auto simp: estimate_file_tokens_def open_read_def demo_files_def)
  have u: "count_tokens tiktoken_missing (result_code unreadable_results) = 0"
    by (simp add: result_code_def unreadable_results_def demo_result_def count_tokens_def
          tiktoken_missing_def)
  have cs: "calculate_savings 0 1500 =
              Inr \<lparr>tokens_used = 0, tokens_without_search = 1500, tokens_saved = 1500,
                   percent_saved = Finite 100\<rparr>"
    by (rule calculate_savings_all_saved) simp_all
  have n: "unreadable_results \<noteq> []" by (simp add: unreadable_results_def)
  have "search_code_with_stats tiktoken_missing (demo_env unreadable_results) ''palindrome''
          ''./.washedmcp/chroma'' 5 []
        = (Inr (unreadable_results,
                \<lparr>tokens_used = 0, tokens_without_search = 1500, tokens_saved = 1500,
                 percent_saved = Finite 100\<rparr>),
           [''init_db'', ''embed_query'', ''db_search''])"
    unfolding search_code_with_stats_def s
    using n by (simp add: u fp z cs demo_env_def)
  then show ?thesis using p c by (simp add: z)
qed

text \<open>
  Claim C4, amended. For a non-empty result sequence, whenever the sum of
  \<open>estimate_file_tokens\<close> over the distinct file paths of the results is 0,
  \<open>tokens_without_search\<close> is \<open>500 * max 3 n\<close>, where \<open>n\<close> is the number of
  distinct non-empty file paths. (There is a sum when every read returns, with the value
  \<open>v p\<close> for the path \<open>p\<close>.)
\<close>

theorem heuristic_when_unreadable:
  assumes "search_code env q p k w = (results, w1)" and "results \<noteq> []"
    and "\<forall>p\<in>distinct_file_paths results.
           estimate_file_tokens tk (files env w1) p = Inr (v p)"
    and "(\<Sum>p\<in>distinct_file_paths results. v p) = 0"
  shows "\<exists>stats. search_code_with_stats tk env q p k w = (Inr (results, stats), w1)
           \<and> tokens_without_search stats
               = 500 * max 3 (int (card {p \<in> distinct_file_paths results. p \<noteq> []}))"
proof -
  have "{p \<in> distinct_file_paths results. p \<noteq> []} = distinct_file_paths results - {[]}"
    by auto
  then show ?thesis
    using search_code_with_stats_nonempty [OF assms(1,2,3)] assms(4) by auto
qed

theorem heuristic_when_unreadable_witness:
  "search_code (demo_env unreadable_results) ''palindrome'' ''./.washedmcp/chroma'' 5 []
     = (unreadable_results, [''init_db'', ''embed_query'', ''db_search''])
   \<and> unreadable_results \<noteq> []
   \<and> distinct_file_paths unreadable_results = {[], ''x.py'', ''y.py'', ''z.py''}
   \<and> map (estimate_file_tokens tiktoken_missing demo_files) [[], ''x.py'', ''y.py'', ''z.py'']
       = [Inr 0, Inr 0, Inr 0, Inr 0]
   \<and> (\<exists>stats. search_code_with_stats tiktoken_missing (demo_env unreadable_results)
                 ''palindrome'' ''./.washedmcp/chroma'' 5 []
               = (Inr (unreadable_results, stats), [''init_db'', ''embed_query'', ''db_search''])
          \<and> tokens_without_search stats = 1500)"
proof -
  have s: "search_code (demo_env unreadable_results) ''palindrome'' ''./.washedmcp/chroma'' 5 []
             = (unreadable_results, [''init_db'', ''embed_query'', ''db_search''])"
    by (simp add: demo_search unreadable_results_def)
  have ne: "unreadable_results \<noteq> []" by (simp add: unreadable_results_def)
  have p: "distinct_file_paths unreadable_results = {[], ''x.py'', ''y.py'', ''z.py''}"
    by (auto simp: distinct_file_paths_def unreadable_results_def demo_result_def)
  have f: "files (demo_env unreadable_results) w = demo_files" for w
    by (simp add: demo_env_def)
  have z: "estimate_file_tokens tiktoken_missing demo_files x = Inr 0"
    if "x \<in> {[], ''x.py'', ''y.py'', ''z.py''}" for x
    using that by (auto simp: estimate_file_tokens_def open_read_def demo_files_def)
  have r: "\<forall>p\<in>distinct_file_paths unreadable_results.
             estimate_file_tokens tiktoken_missing
               (files (demo_env unreadable_results) [''init_db'', ''embed_query'', ''db_search'']) p
             = Inr ((\<lambda>p. 0) p)"
    unfolding p f using z by simp
  have t: "(\<Sum>p\<in>distinct_file_paths unreadable_results. (\<lambda>p. 0::int) p) = 0"
    by simp
  have c: "card {p \<in> distinct_file_paths unreadable_results. p \<noteq> []} = 3"
  proof -
    have "{p \<in> distinct_file_paths unreadable_results. p \<noteq> []} = {''x.py'', ''y.py'', ''z.py''}"
      unfolding p by auto
    then show ?thesis by simp
  qed
  obtain stats where st:
    "search_code_with_stats tiktoken_missing (demo_env unreadable_results)
       ''palindrome'' ''./.washedmcp/chroma'' 5 []
     = (Inr (unreadable_results, stats), [''init_db'', ''embed_query'', ''db_search''])"
    "tokens_without_search stats
       = 500 * max 3 (int (card {p \<in> distinct_file_paths unreadable_results. p \<noteq> []}))"
    using heuristic_when_unreadable [OF s ne r t] by blast
  have "tokens_without_search stats = 1500"
    unfolding st(2) c by simp
  then show ?thesis
    using s ne p st(1) by (simp add: z)
qed

text \<open>
  Claim C10. Under the character estimator a non-empty text of fewer than 4 characters
  counts 0 tokens; so \<open>search_code_with_stats\<close> reports \<open>tokens_used = 0\<close> for results
  whose joined code is that short (and whose files each are read or fail with an error the
  handler catches), although a snippet is not empty.
\<close>

theorem short_snippets_count_zero:
  assumes "char_estimator tk"
  shows "(text \<noteq> [] \<and> length text < 4 \<longrightarrow> count_tokens tk text = 0)
         \<and> (search_code env q p k w = (results, w1) \<and> results \<noteq> []
              \<and> (\<forall>p\<in>distinct_file_paths results.
                    estimate_file_tokens tk (files env w1) p = Inr (n p))
              \<and> length (result_code results) < 4
            \<longrightarrow> (\<exists>stats. search_code_with_stats tk env q p k w = (Inr (results, stats), w1)
                   \<and> tokens_used stats = 0))"
proof -
  have short: "count_tokens tk t = 0" if "length t < 4" for t
    using that by (simp add: count_tokens_estimator [OF assms])
  show ?thesis
    using short search_code_with_stats_nonempty [of env q p k w results w1 tk n]
    by auto
qed

theorem short_snippets_count_zero_witness:
  "char_estimator tiktoken_missing
   \<and> ''x=1'' \<noteq> [] \<and> length ''x=1'' < 4 \<and> count_tokens tiktoken_missing ''x=1'' = 0
   \<and> search_code (demo_env short_snippet_results) ''palindrome'' ''./.washedmcp/chroma'' 5 []
       = (short_snippet_results, [''init_db'', ''embed_query'', ''db_search''])
   \<and> short_snippet_results \<noteq> [] \<and> code (hd short_snippet_results) = Some ''x=1''
   \<and> distinct_file_paths short_snippet_results = {''missing.py''}
   \<and> estimate_file_tokens tiktoken_missing demo_files ''missing.py'' = Inr 0
   \<and> length (result_code short_snippet_results) < 4
   \<and> (\<exists>stats. search_code_with_stats tiktoken_missing (demo_env short_snippet_results)
                 ''palindrome'' ''./.washedmcp/chroma'' 5 []
               = (Inr (short_snippet_results, stats), [''init_db'', ''embed_query'', ''db_search''])
          \<and> tokens_used stats = 0)"
proof -
  have est: "char_estimator tiktoken_missing"
    by (simp add: char_estimator_def tiktoken_missing_def)
  have s: "search_code (demo_env short_snippet_results) ''palindrome'' ''./.washedmcp/chroma'' 5 []
             = (short_snippet_results, [''init_db'', ''embed_query'', ''db_search''])"
    by (simp add: demo_search short_snippet_results_def)
  have ne: "short_snippet_results \<noteq> []" "code (hd short_snippet_results) = Some ''x=1''"
    by (simp_all add: short_snippet_results_def demo_result_def)
  have p: "distinct_file_paths short_snippet_results = {''missing.py''}"
    by (auto simp: distinct_file_paths_def short_snippet_results_def demo_result_def)
  have z: "estimate_file_tokens tiktoken_missing demo_files ''missing.py'' = Inr 0"
    by (simp add: estimate_file_tokens_def open_read_def demo_files_def)
  have r: "\<forall>p\<in>distinct_file_paths short_snippet_results.
             estimate_file_tokens tiktoken_missing
               (files (demo_env short_snippet_results) [''init_db'', ''embed_query'', ''db_search'']) p
             = Inr ((\<lambda>p. 0) p)"
    unfolding p using z by (simp add: demo_env_def)
  have l: "length (result_code short_snippet_results) < 4"
    by (simp add: result_code_def short_snippet_results_def demo_result_def)
  show ?thesis
    using short_snippets_count_zero [OF est, of "''x=1''" "demo_env short_snippet_results"
        "''palindrome''" "''./.washedmcp/chroma''" 5 "[]" short_snippet_results
        "[''init_db'', ''embed_query'', ''db_search'']" "\<lambda>p. 0"]
      est s ne p z r l
    by simp
qed

end
